theory Spec2Isabelle
  imports Main "HOL-Library.Word"
begin

section \<open>The output stream\<close>

text \<open>
  Every function of \<^verbatim>\<open>MSc_projects_table.hpp\<close> writes to \<^verbatim>\<open>std::cout\<close> and returns
  nothing. The stream is modelled by the two parts of its state that the header itself
  writes: the characters sent so far, and the field width, which \<^verbatim>\<open>setw\<close> sets and
  every formatted insertion reads and sets back to zero. The fill character and the
  adjustment flags, which no line of the header changes, stay at the values a standard
  stream starts with: a space, and padding in front of the text.
\<close>

record ostream =
  buf :: string
  width :: nat

text \<open>\<^verbatim>\<open>std::cout\<close> when the program starts: nothing written, no width pending.\<close>

definition cout_init :: ostream where
  "cout_init = \<lparr>buf = [], width = 0\<rparr>"

text \<open>
  A field of width \<open>w\<close> holding the text \<open>s\<close>: spaces in front up to \<open>w\<close> characters, and
  the whole of \<open>s\<close> when it is longer (the subtraction on \<open>nat\<close> stops at zero, which is
  the case "no padding" of the stream).
\<close>

definition padded :: "nat \<Rightarrow> string \<Rightarrow> string" where
  "padded w s = replicate (w - length s) (CHR '' '') @ s"

text \<open>
  \<^verbatim>\<open>os << s\<close> for a value whose printed representation is \<open>s\<close>: a formatted insertion.
  It writes the padded field and calls \<^verbatim>\<open>width(0)\<close>.
\<close>

definition put_formatted :: "string \<Rightarrow> ostream \<Rightarrow> ostream" where
  "put_formatted s os = os\<lparr>buf := buf os @ padded (width os) s, width := 0\<rparr>"

text \<open>\<^verbatim>\<open>os << setw(n)\<close>.\<close>

definition setw :: "nat \<Rightarrow> ostream \<Rightarrow> ostream" where
  "setw n os = os\<lparr>width := n\<rparr>"

text \<open>
  \<^verbatim>\<open>os << endl\<close>: an unformatted \<^verbatim>\<open>put('\n')\<close> and a flush. It neither reads nor resets
  the width.
\<close>

definition endl :: "ostream \<Rightarrow> ostream" where
  "endl os = os\<lparr>buf := buf os @ [CHR 0x0A]\<rparr>"

section \<open>The functions of the header\<close>

definition columnWidth :: nat where
  "columnWidth = 14"

text \<open>
  \<^verbatim>\<open>addColumnEntry(const T& t)\<close>. A scalar argument is represented by the characters its
  inserter prints.
\<close>

definition addColumnEntry :: "string \<Rightarrow> ostream \<Rightarrow> ostream" where
  "addColumnEntry t os = put_formatted t (setw columnWidth (put_formatted ''|'' os))"

text \<open>\<^verbatim>\<open>addColumnEntry()\<close>: the default argument \<^verbatim>\<open>std::string("--------------")\<close>.\<close>

definition addColumnEntry_default :: "ostream \<Rightarrow> ostream" where
  "addColumnEntry_default os = addColumnEntry ''--------------'' os"

text \<open>
  \<^verbatim>\<open>addColumnEntry(const std::vector<T>& t)\<close>: the range-based loop, whose body repeats
  the statement of the scalar overload.
\<close>

fun addColumnEntry_vector :: "string list \<Rightarrow> ostream \<Rightarrow> ostream" where
  "addColumnEntry_vector [] os = os"
| "addColumnEntry_vector (ti # t) os =
     addColumnEntry_vector t (put_formatted ti (setw columnWidth (put_formatted ''|'' os)))"

definition endRow :: "ostream \<Rightarrow> ostream" where
  "endRow os = endl (put_formatted ''|'' os)"

text \<open>
  \<^verbatim>\<open>emptyTableRow(unsigned int n)\<close>. The loop counter is an unsigned machine integer;
  \<open>emptyTableRow_loop i n\<close> is the loop \<^verbatim>\<open>for(; i<n; i++) addColumnEntry();\<close>.
\<close>

function emptyTableRow_loop :: "'a::len word \<Rightarrow> 'a word \<Rightarrow> ostream \<Rightarrow> ostream" where
  "emptyTableRow_loop i n os =
     (if i < n then emptyTableRow_loop (i + 1) n (addColumnEntry_default os) else os)"
  by pat_completeness auto
termination
proof (relation "measure (\<lambda>(i, n, os). unat n - unat i)")
  show "wf (measure (\<lambda>(i :: 'a word, n :: 'a word, os :: ostream). unat n - unat i))"
    by simp
next
  fix i n :: "'a word" and os :: ostream
  assume lt: "i < n"
  then have "i + 1 \<noteq> 0"
    by (metis add.commute add.right_inverse add_left_cancel word_order.extremum_strict)
  then have "unat (i + 1) = Suc (unat i)"
    by (metis add.commute unatSuc)
  moreover from lt have "unat i < unat n"
    by (simp add: word_less_nat_alt)
  ultimately show "((i + 1, n, addColumnEntry_default os), (i, n, os))
      \<in> measure (\<lambda>(i, n, os). unat n - unat i)"
    by simp
qed

declare emptyTableRow_loop.simps [simp del]

definition emptyTableRow :: "'a::len word \<Rightarrow> ostream \<Rightarrow> ostream" where
  "emptyTableRow n os = endl (put_formatted ''|'' (emptyTableRow_loop 0 n os))"

text \<open>
  An argument of \<^verbatim>\<open>tableRow\<close> is a scalar or a \<^verbatim>\<open>std::vector\<close> of scalars; overload
  resolution sends a vector to the vector overload of \<^verbatim>\<open>addColumnEntry\<close>, the more
  specialised template, and anything else to the scalar one.
\<close>

datatype printable = Scalar string | Vector "string list"

fun addColumnEntry_overload :: "printable \<Rightarrow> ostream \<Rightarrow> ostream" where
  "addColumnEntry_overload (Scalar t) os = addColumnEntry t os"
| "addColumnEntry_overload (Vector t) os = addColumnEntry_vector t os"

text \<open>
  \<^verbatim>\<open>tableRow(T v)\<close> and \<^verbatim>\<open>tableRow(T first, Args... args)\<close>: the call takes at least one
  argument, the first, and the pack \<open>args\<close> that follows it. With an empty pack the
  one-argument template is chosen.
\<close>

fun tableRow :: "printable \<Rightarrow> printable list \<Rightarrow> ostream \<Rightarrow> ostream" where
  "tableRow v [] os = endRow (addColumnEntry_overload v os)"
| "tableRow first (a # args) os = tableRow a args (addColumnEntry_overload first os)"

text \<open>
  A program that prints through the header alone is a sequence of calls of its five
  functions (\<^verbatim>\<open>unsigned int\<close> at 32 bits here).
\<close>

datatype call =
    AddColumnEntry printable
  | AddColumnEntryDefault
  | EndRow
  | EmptyTableRow "32 word"
  | TableRow printable "printable list"

fun exec :: "call \<Rightarrow> ostream \<Rightarrow> ostream" where
  "exec (AddColumnEntry v) os = addColumnEntry_overload v os"
| "exec AddColumnEntryDefault os = addColumnEntry_default os"
| "exec EndRow os = endRow os"
| "exec (EmptyTableRow n) os = emptyTableRow n os"
| "exec (TableRow v args) os = tableRow v args os"

section \<open>What each stream operation writes\<close>

lemma padded_0: "padded 0 s = s"
  by (simp add: padded_def)

lemma padded_overflow: "w \<le> length s \<Longrightarrow> padded w s = s"
  by (simp add: padded_def)

lemma width_put_formatted: "width (put_formatted s os) = 0"
  by (simp add: put_formatted_def)

lemma buf_put_formatted: "buf (put_formatted s os) = buf os @ padded (width os) s"
  by (simp add: put_formatted_def)

lemma width_setw: "width (setw n os) = n"
  by (simp add: setw_def)

lemma buf_setw: "buf (setw n os) = buf os"
  by (simp add: setw_def)

lemma width_endl: "width (endl os) = width os"
  by (simp add: endl_def)

lemma buf_endl: "buf (endl os) = buf os @ [CHR 0x0A]"
  by (simp add: endl_def)

lemmas stream_simps =
  width_put_formatted buf_put_formatted width_setw buf_setw width_endl buf_endl

section \<open>The width is zero between calls\<close>

text \<open>
  The first insertion of every function is that of a bar, and it reads the width: a width
  left pending by the caller would pad the bar itself. The width is zero when the program
  starts, every function that writes leaves it zero, and the vector overload leaves it as
  it was when the vector is empty. So the width is zero at every call in a program that
  sets it through the header only, and the theorems on the output are stated for such
  streams.
\<close>

lemma width_addColumnEntry: "width (addColumnEntry t os) = 0"
  by (simp add: addColumnEntry_def stream_simps)

lemma buf_addColumnEntry:
  "buf (addColumnEntry t os) = buf os @ padded (width os) ''|'' @ padded columnWidth t"
  by (simp add: addColumnEntry_def stream_simps)

lemma buf_addColumnEntry_0:
  "width os = 0 \<Longrightarrow> buf (addColumnEntry t os) = buf os @ ''|'' @ padded columnWidth t"
  by (simp add: buf_addColumnEntry padded_0)

lemma width_addColumnEntry_default: "width (addColumnEntry_default os) = 0"
  by (simp add: addColumnEntry_default_def width_addColumnEntry)

lemma buf_addColumnEntry_default_0:
  "width os = 0 \<Longrightarrow> buf (addColumnEntry_default os) = buf os @ ''|--------------''"
  by (simp add: addColumnEntry_default_def buf_addColumnEntry_0 columnWidth_def padded_def)

lemma addColumnEntry_vector_fold: "addColumnEntry_vector ts os = fold addColumnEntry ts os"
  by (induction ts arbitrary: os) (simp_all add: addColumnEntry_def)

lemma width_fold_addColumnEntry:
  "width os = 0 \<Longrightarrow> width (fold addColumnEntry ts os) = 0"
  by (induction ts arbitrary: os) (simp_all add: width_addColumnEntry)

lemma buf_fold_addColumnEntry:
  "width os = 0 \<Longrightarrow>
   buf (fold addColumnEntry ts os) = buf os @ concat (map (\<lambda>t. ''|'' @ padded columnWidth t) ts)"
proof (induction ts arbitrary: os)
  case Nil
  then show ?case by simp
next
  case (Cons t ts)
  have "buf (fold addColumnEntry ts (addColumnEntry t os)) =
        buf (addColumnEntry t os) @ concat (map (\<lambda>t. ''|'' @ padded columnWidth t) ts)"
    by (rule Cons.IH) (rule width_addColumnEntry)
  with Cons.prems show ?case
    by (simp add: buf_addColumnEntry_0)
qed

lemma width_addColumnEntry_overload:
  "width os = 0 \<Longrightarrow> width (addColumnEntry_overload v os) = 0"
  by (cases v) (simp_all add: width_addColumnEntry addColumnEntry_vector_fold
      width_fold_addColumnEntry)

lemma width_endRow: "width (endRow os) = 0"
  by (simp add: endRow_def stream_simps)

lemma buf_endRow_0: "width os = 0 \<Longrightarrow> buf (endRow os) = buf os @ ''|'' @ [CHR 0x0A]"
  by (simp add: endRow_def stream_simps padded_0)

lemma width_emptyTableRow: "width (emptyTableRow n os) = 0"
  by (simp add: emptyTableRow_def stream_simps)

lemma width_tableRow: "width (tableRow v args os) = 0"
  by (induction v args os rule: tableRow.induct) (simp_all add: width_endRow)

lemma width_exec: "width os = 0 \<Longrightarrow> width (exec c os) = 0"
  by (cases c) (simp_all add: width_addColumnEntry_overload width_addColumnEntry_default
      width_endRow width_emptyTableRow width_tableRow)

lemma width_fold_exec: "width os = 0 \<Longrightarrow> width (fold exec calls os) = 0"
  by (induction calls arbitrary: os) (simp_all add: width_exec)

lemma width_fold_addColumnEntry_overload:
  "width os = 0 \<Longrightarrow> width (fold addColumnEntry_overload cells os) = 0"
  by (induction cells arbitrary: os) (simp_all add: width_addColumnEntry_overload)

section \<open>The loop of emptyTableRow\<close>

lemma word_less_Suc_unat:
  fixes i n :: "'a::len word"
  assumes "i < n"
  shows "unat (i + 1) = Suc (unat i)"
proof -
  from assms have "i + 1 \<noteq> 0"
    by (metis add.commute add.right_inverse add_left_cancel word_order.extremum_strict)
  then show ?thesis
    by (metis add.commute unatSuc)
qed

lemma emptyTableRow_loop_funpow:
  "i \<le> n \<Longrightarrow> emptyTableRow_loop i n os = (addColumnEntry_default ^^ (unat n - unat i)) os"
proof (induction i n os rule: emptyTableRow_loop.induct)
  case (1 i n os)
  show ?case
  proof (cases "i < n")
    case True
    then have suc: "unat (i + 1) = Suc (unat i)"
      by (rule word_less_Suc_unat)
    from True have le: "i + 1 \<le> n"
      by (rule inc_le)
    from True have "unat i < unat n"
      by (simp add: word_less_nat_alt)
    then have split: "unat n - unat i = Suc (unat n - Suc (unat i))"
      by simp
    have "emptyTableRow_loop i n os = emptyTableRow_loop (i + 1) n (addColumnEntry_default os)"
      using True by (subst emptyTableRow_loop.simps) simp
    also have "\<dots> = (addColumnEntry_default ^^ (unat n - unat (i + 1))) (addColumnEntry_default os)"
      by (rule "1.IH" [OF True le])
    also have "\<dots> = (addColumnEntry_default ^^ (unat n - unat i)) os"
      by (simp only: suc split funpow_Suc_right o_apply)
    finally show ?thesis .
  next
    case False
    with "1.prems" have "i = n" by simp
    then show ?thesis by (subst emptyTableRow_loop.simps) simp
  qed
qed

lemma emptyTableRow_funpow:
  "emptyTableRow n os = endRow ((addColumnEntry_default ^^ unat n) os)"
  by (simp add: emptyTableRow_def endRow_def emptyTableRow_loop_funpow)

lemma width_funpow_addColumnEntry_default:
  "width os = 0 \<Longrightarrow> width ((addColumnEntry_default ^^ k) os) = 0"
  by (induction k) (simp_all add: width_addColumnEntry_default)

lemma buf_funpow_addColumnEntry_default:
  "width os = 0 \<Longrightarrow>
   buf ((addColumnEntry_default ^^ k) os) = buf os @ concat (replicate k ''|--------------'')"
proof (induction k)
  case 0
  then show ?case by simp
next
  case (Suc k)
  have shift: "concat (replicate k ''|--------------'') @ ''|--------------'' =
      ''|--------------'' @ concat (replicate k ''|--------------'')"
    by (induction k) simp_all
  from Suc.prems have "width ((addColumnEntry_default ^^ k) os) = 0"
    by (rule width_funpow_addColumnEntry_default)
  then have "buf ((addColumnEntry_default ^^ Suc k) os) =
      buf ((addColumnEntry_default ^^ k) os) @ ''|--------------''"
    by (simp add: buf_addColumnEntry_default_0)
  with Suc show ?case
    using shift by simp
qed

section \<open>Counting one character of the output\<close>

lemma count_list_padded:
  "c \<noteq> CHR '' '' \<Longrightarrow> count_list (padded w t) c = count_list t c"
  by (simp add: padded_def)

lemma count_list_cells:
  "\<forall>t \<in> set ts. CHR ''|'' \<notin> set t \<Longrightarrow>
   count_list (concat (map (\<lambda>t. ''|'' @ padded columnWidth t) ts)) (CHR ''|'') = length ts"
  by (induction ts) (simp_all add: count_list_padded)

section \<open>The claims\<close>

text \<open>
  C1. On a stream with no width pending, \<open>emptyTableRow n\<close> writes \<open>n\<close> placeholder cells and
  then one row terminator, a bar and a line break. For \<open>n = 0\<close> that is the terminator alone,
  and \<open>emptyTableRow 2\<close> writes the line \<^verbatim>\<open>|--------------|--------------|\<close>.
\<close>

theorem emptyTableRow_output:
  fixes n :: "'a::len word"
  assumes "width os = 0"
  shows "buf (emptyTableRow n os) =
           buf os @ concat (replicate (unat n) ''|--------------'') @ ''|'' @ [CHR 0x0A]
       \<and> buf (emptyTableRow (0 :: 'a word) os) = buf os @ ''|'' @ [CHR 0x0A]
       \<and> buf (emptyTableRow (2 :: 32 word) os) =
           buf os @ ''|--------------|--------------|'' @ [CHR 0x0A]"
proof -
  have general: "buf (emptyTableRow m os) =
      buf os @ concat (replicate (unat m) ''|--------------'') @ ''|'' @ [CHR 0x0A]"
    for m :: "'b::len word"
  proof -
    from assms have "width ((addColumnEntry_default ^^ unat m) os) = 0"
      by (rule width_funpow_addColumnEntry_default)
    then have "buf (emptyTableRow m os) =
        buf ((addColumnEntry_default ^^ unat m) os) @ ''|'' @ [CHR 0x0A]"
      by (simp add: emptyTableRow_funpow buf_endRow_0)
    with assms show ?thesis
      by (simp add: buf_funpow_addColumnEntry_default)
  qed
  have zero: "buf (emptyTableRow (0 :: 'a word) os) = buf os @ ''|'' @ [CHR 0x0A]"
    using general [of "0 :: 'a word"] by simp
  have two: "buf (emptyTableRow (2 :: 32 word) os) =
      buf os @ ''|--------------|--------------|'' @ [CHR 0x0A]"
  proof -
    have cells: "concat (replicate 2 ''|--------------'') = ''|--------------|--------------''"
      by (simp add: numeral_2_eq_2)
    show ?thesis
      using general [of "2 :: 32 word"] by (simp add: cells)
  qed
  from general [of n] zero two show ?thesis
    by (intro conjI)
qed

theorem emptyTableRow_output_witness:
  "width cout_init = 0
   \<and> buf (emptyTableRow (3 :: 32 word) cout_init) =
       ''|--------------|--------------|--------------|'' @ [CHR 0x0A]"
proof -
  have init: "width cout_init = 0"
    by (simp add: cout_init_def)
  have cells: "concat (replicate 3 ''|--------------'') =
      ''|--------------|--------------|--------------''"
    by (simp add: numeral_3_eq_3)
  show ?thesis
    using init emptyTableRow_output [OF init, of "3 :: 32 word"]
    by (simp add: cells cout_init_def)
qed

text \<open>
  C2. \<open>tableRow("a","b")\<close> on the stream as it is when the program starts writes
  \<^verbatim>\<open>|             a|             b|\<close> and a line break: each value is at the right end of a
  field of 14 characters that follows a bar, and a bar and the line break close the row.
\<close>

theorem tableRow_a_b:
  "buf (tableRow (Scalar ''a'') [Scalar ''b''] cout_init) =
     ''|             a|             b|'' @ [CHR 0x0A]
   \<and> buf (tableRow (Scalar ''a'') [Scalar ''b''] cout_init) =
     ''|'' @ replicate 13 (CHR '' '') @ ''a'' @ ''|'' @ replicate 13 (CHR '' '') @ ''b''
       @ ''|'' @ [CHR 0x0A]"
  by (simp add: cout_init_def endRow_def addColumnEntry_def stream_simps padded_def
      columnWidth_def eval_nat_numeral)

text \<open>
  C3. On a stream with no width pending, a scalar whose printed representation has at most
  14 characters adds exactly 15 characters: a bar, then a field of exactly 14 characters,
  which is the representation with spaces in front.
\<close>

theorem addColumnEntry_fits:
  assumes "width os = 0" and "length t \<le> 14"
  shows "buf (addColumnEntry t os) = buf os @ ''|'' @ replicate (14 - length t) (CHR '' '') @ t
       \<and> length (replicate (14 - length t) (CHR '' '') @ t) = 14
       \<and> length (buf (addColumnEntry t os)) = length (buf os) + 15"
  using assms by (simp add: buf_addColumnEntry_0 columnWidth_def padded_def)

theorem addColumnEntry_fits_witness:
  "width cout_init = 0 \<and> length ''3.14'' \<le> 14
   \<and> buf (addColumnEntry ''3.14'' cout_init) = ''|          3.14''
   \<and> length (buf (addColumnEntry ''3.14'' cout_init)) = 15"
proof -
  have init: "width cout_init = 0"
    by (simp add: cout_init_def)
  have len: "length ''3.14'' \<le> 14"
    by simp
  show ?thesis
    using init addColumnEntry_fits [OF init len]
    by (simp add: cout_init_def eval_nat_numeral)
qed

text \<open>
  C4. \<open>tableRow(a, b, c)\<close> with three scalars is the cell of \<open>a\<close>, the cell of \<open>b\<close>, the cell
  of \<open>c\<close> and one \<open>endRow\<close>, in this order; on a stream with no width pending the output is
  the three cells and a single terminator, so the call adds one line break and no second
  one when the values hold none. The recursive template writes the cell of its
  first argument and goes on with the rest; the template of one argument writes the cell
  and then the terminator.
\<close>

theorem tableRow_three:
  "tableRow (Scalar a) [Scalar b, Scalar c] os =
     endRow (addColumnEntry c (addColumnEntry b (addColumnEntry a os)))
   \<and> (width os = 0 \<longrightarrow>
        buf (tableRow (Scalar a) [Scalar b, Scalar c] os) =
          buf os @ ''|'' @ padded columnWidth a @ ''|'' @ padded columnWidth b
            @ ''|'' @ padded columnWidth c @ ''|'' @ [CHR 0x0A])
   \<and> (width os = 0 \<and> CHR 0x0A \<notin> set a \<and> CHR 0x0A \<notin> set b \<and> CHR 0x0A \<notin> set c \<longrightarrow>
        count_list (buf (tableRow (Scalar a) [Scalar b, Scalar c] os)) (CHR 0x0A) =
          count_list (buf os) (CHR 0x0A) + 1)
   \<and> tableRow first (x # args) os = tableRow x args (addColumnEntry_overload first os)
   \<and> tableRow v [] os = endRow (addColumnEntry_overload v os)"
  by (simp add: buf_endRow_0 buf_addColumnEntry_0 width_addColumnEntry count_list_padded)

theorem tableRow_three_witness:
  "width cout_init = 0
   \<and> buf (tableRow (Scalar ''1'') [Scalar ''2'', Scalar ''3''] cout_init) =
       ''|             1|             2|             3|'' @ [CHR 0x0A]"
proof -
  have init: "width cout_init = 0"
    by (simp add: cout_init_def)
  show ?thesis
    using init tableRow_three [of "''1''" "''2''" "''3''" cout_init]
    by (simp add: cout_init_def padded_def columnWidth_def eval_nat_numeral)
qed

text \<open>
  C5. The vector overload does what the scalar overload does on each element in turn, in
  the order of the vector. On a stream with no width pending its output is one cell per
  element, a bar and the padded element, with nothing between the cells; when no element
  contains a bar, the call adds as many bars as the vector has elements.
\<close>

theorem addColumnEntry_vector_cells:
  "addColumnEntry_vector s os = fold addColumnEntry s os
   \<and> (width os = 0 \<longrightarrow>
        buf (addColumnEntry_vector s os) =
          buf os @ concat (map (\<lambda>t. ''|'' @ padded columnWidth t) s))
   \<and> (width os = 0 \<and> (\<forall>t \<in> set s. CHR ''|'' \<notin> set t) \<longrightarrow>
        count_list (buf (addColumnEntry_vector s os)) (CHR ''|'') =
          count_list (buf os) (CHR ''|'') + length s)"
proof (intro conjI impI)
  show "addColumnEntry_vector s os = fold addColumnEntry s os"
    by (rule addColumnEntry_vector_fold)
next
  assume "width os = 0"
  then show "buf (addColumnEntry_vector s os) =
      buf os @ concat (map (\<lambda>t. ''|'' @ padded columnWidth t) s)"
    by (simp only: addColumnEntry_vector_fold buf_fold_addColumnEntry)
next
  assume "width os = 0 \<and> (\<forall>t \<in> set s. CHR ''|'' \<notin> set t)"
  then have w: "width os = 0" and bars: "\<forall>t \<in> set s. CHR ''|'' \<notin> set t"
    by simp_all
  from w have "buf (addColumnEntry_vector s os) =
      buf os @ concat (map (\<lambda>t. ''|'' @ padded columnWidth t) s)"
    by (simp only: addColumnEntry_vector_fold buf_fold_addColumnEntry)
  then show "count_list (buf (addColumnEntry_vector s os)) (CHR ''|'') =
      count_list (buf os) (CHR ''|'') + length s"
    by (simp only: count_list_append count_list_cells [OF bars])
qed

theorem addColumnEntry_vector_cells_witness:
  "width cout_init = 0 \<and> CHR ''|'' \<notin> set ''1'' \<and> CHR ''|'' \<notin> set ''22''
   \<and> buf (addColumnEntry_vector [''1'', ''22''] cout_init) = ''|             1|            22''
   \<and> count_list (buf (addColumnEntry_vector [''1'', ''22''] cout_init)) (CHR ''|'') = 2"
proof -
  have init: "width cout_init = 0"
    by (simp add: cout_init_def)
  have bars: "\<forall>t \<in> set [''1'', ''22'']. CHR ''|'' \<notin> set t"
    by simp
  note cells = addColumnEntry_vector_cells [of "[''1'', ''22'']" cout_init]
  from cells init have "buf (addColumnEntry_vector [''1'', ''22''] cout_init) =
      buf cout_init @ concat (map (\<lambda>t. ''|'' @ padded columnWidth t) [''1'', ''22''])"
    by blast
  also have "\<dots> = ''|             1|            22''"
    by (simp add: cout_init_def padded_def columnWidth_def eval_nat_numeral)
  finally have out:
    "buf (addColumnEntry_vector [''1'', ''22''] cout_init) = ''|             1|            22''" .
  from cells init bars
  have "count_list (buf (addColumnEntry_vector [''1'', ''22''] cout_init)) (CHR ''|'') =
      count_list (buf cout_init) (CHR ''|'') + length [''1'', ''22'']"
    by blast
  also have "\<dots> = 2"
    by (simp add: cout_init_def)
  finally have count:
    "count_list (buf (addColumnEntry_vector [''1'', ''22''] cout_init)) (CHR ''|'') = 2" .
  have bar1: "CHR ''|'' \<notin> set ''1''" and bar2: "CHR ''|'' \<notin> set ''22''"
    by simp_all
  from init bar1 bar2 out count show ?thesis
    by (intro conjI)
qed

text \<open>
  C6. On a stream with no width pending, a scalar whose printed representation is longer
  than 14 characters is written whole after the bar, with no padding and nothing cut, so the
  cell is longer than 15 characters. The function has no failing branch: it returns the
  stream for every argument.
\<close>

theorem addColumnEntry_overflow:
  assumes "width os = 0" and "14 < length t"
  shows "buf (addColumnEntry t os) = buf os @ ''|'' @ t
       \<and> length (buf (addColumnEntry t os)) = length (buf os) + 1 + length t
       \<and> length (buf os) + 15 < length (buf (addColumnEntry t os))"
  using assms by (simp add: buf_addColumnEntry_0 columnWidth_def padded_overflow)

theorem addColumnEntry_overflow_witness:
  "width cout_init = 0 \<and> 14 < length ''0.1234567890123456''
   \<and> buf (addColumnEntry ''0.1234567890123456'' cout_init) = ''|0.1234567890123456''"
proof -
  have init: "width cout_init = 0"
    by (simp add: cout_init_def)
  have long: "14 < length ''0.1234567890123456''"
    by simp
  from addColumnEntry_overflow [OF init long]
  have "buf (addColumnEntry ''0.1234567890123456'' cout_init) =
      buf cout_init @ ''|'' @ ''0.1234567890123456''"
    by (rule conjunct1)
  then have "buf (addColumnEntry ''0.1234567890123456'' cout_init) = ''|0.1234567890123456''"
    by (simp add: cout_init_def)
  with init long show ?thesis
    by (intro conjI)
qed

text \<open>
  C7. After any sequence of calls of the header's functions, started on a stream with no
  width pending, \<open>addColumnEntry()\<close> writes a bar and the placeholder, which is 14 dashes,
  and nothing else.
\<close>

theorem addColumnEntry_default_output:
  assumes "width os = 0"
  shows "buf (addColumnEntry_default (fold exec calls os)) =
           buf (fold exec calls os) @ ''|'' @ ''--------------''
       \<and> ''--------------'' = replicate 14 (CHR ''-'')"
proof
  from assms have "width (fold exec calls os) = 0"
    by (rule width_fold_exec)
  then show "buf (addColumnEntry_default (fold exec calls os)) =
      buf (fold exec calls os) @ ''|'' @ ''--------------''"
    by (simp add: buf_addColumnEntry_default_0)
next
  show "''--------------'' = replicate 14 (CHR ''-'')"
    by (simp add: eval_nat_numeral)
qed

theorem addColumnEntry_default_output_witness:
  "width cout_init = 0
   \<and> buf (addColumnEntry_default
        (fold exec [EndRow, AddColumnEntry (Scalar ''x''), AddColumnEntry (Vector [])] cout_init)) =
     ''|'' @ [CHR 0x0A] @ ''|             x|--------------''"
proof -
  have init: "width cout_init = 0"
    by (simp add: cout_init_def)
  let ?calls = "[EndRow, AddColumnEntry (Scalar ''x''), AddColumnEntry (Vector [])]"
  from addColumnEntry_default_output [OF init, of ?calls]
  have "buf (addColumnEntry_default (fold exec ?calls cout_init)) =
      buf (fold exec ?calls cout_init) @ ''|'' @ ''--------------''"
    by (rule conjunct1)
  also have "buf (fold exec ?calls cout_init) = ''|'' @ [CHR 0x0A] @ ''|             x''"
    by (simp add: cout_init_def endRow_def addColumnEntry_def stream_simps padded_def
        columnWidth_def eval_nat_numeral)
  finally have "buf (addColumnEntry_default (fold exec ?calls cout_init)) =
      ''|'' @ [CHR 0x0A] @ ''|             x|--------------''"
    by simp
  with init show ?thesis
    by (intro conjI)
qed

text \<open>
  C8. Whatever cells were written before it, none, one or many, on a stream that had no
  width pending, \<open>endRow\<close> adds exactly one bar and one line break.
\<close>

theorem endRow_output:
  assumes "width os = 0"
  shows "buf (endRow (fold addColumnEntry_overload cells os)) =
           buf (fold addColumnEntry_overload cells os) @ ''|'' @ [CHR 0x0A]"
proof -
  from assms have "width (fold addColumnEntry_overload cells os) = 0"
    by (rule width_fold_addColumnEntry_overload)
  then show ?thesis
    by (rule buf_endRow_0)
qed

theorem endRow_output_witness:
  "width cout_init = 0
   \<and> buf (endRow (fold addColumnEntry_overload [Scalar ''a'', Vector [''b'', ''c'']] cout_init)) =
       ''|             a|             b|             c|'' @ [CHR 0x0A]"
proof -
  have init: "width cout_init = 0"
    by (simp add: cout_init_def)
  let ?cells = "[Scalar ''a'', Vector [''b'', ''c'']]"
  have "buf (fold addColumnEntry_overload ?cells cout_init) =
      ''|             a|             b|             c''"
    by (simp add: cout_init_def addColumnEntry_def stream_simps padded_def
        columnWidth_def eval_nat_numeral)
  with endRow_output [OF init, of ?cells]
  have "buf (endRow (fold addColumnEntry_overload ?cells cout_init)) =
      ''|             a|             b|             c|'' @ [CHR 0x0A]"
    by simp
  with init show ?thesis
    by (intro conjI)
qed

text \<open>
  C9. The vector overload called with an empty vector leaves the stream as it was: no cell
  and no bar. So \<open>tableRow\<close> called with an empty vector alone writes, on a stream with no
  width pending, the row terminator and nothing else.
\<close>

theorem addColumnEntry_vector_empty:
  "addColumnEntry_vector [] os = os
   \<and> (width os = 0 \<longrightarrow> buf (tableRow (Vector []) [] os) = buf os @ ''|'' @ [CHR 0x0A])"
  by (simp add: buf_endRow_0)

theorem addColumnEntry_vector_empty_witness:
  "width cout_init = 0 \<and> buf (tableRow (Vector []) [] cout_init) = ''|'' @ [CHR 0x0A]"
proof -
  have init: "width cout_init = 0"
    by (simp add: cout_init_def)
  from addColumnEntry_vector_empty [of cout_init] init
  have "buf (tableRow (Vector []) [] cout_init) = buf cout_init @ ''|'' @ [CHR 0x0A]"
    by blast
  then have "buf (tableRow (Vector []) [] cout_init) = ''|'' @ [CHR 0x0A]"
    by (simp add: cout_init_def)
  with init show ?thesis
    by (intro conjI)
qed

text \<open>
  C10. For every \<open>n\<close>, \<open>emptyTableRow n\<close> leaves the stream exactly as \<open>n\<close> calls of
  \<open>addColumnEntry()\<close> followed by one call of \<open>endRow()\<close> do, so the two outputs are the same
  characters, although \<open>emptyTableRow\<close> repeats the statement of \<open>endRow\<close> instead of calling
  it.
\<close>

theorem emptyTableRow_as_calls:
  "emptyTableRow n os = endRow ((addColumnEntry_default ^^ unat n) os)
   \<and> buf (emptyTableRow n os) = buf (endRow ((addColumnEntry_default ^^ unat n) os))"
  by (simp add: emptyTableRow_funpow)

end
